theory Spec2Isabelle
  imports Main "HOL-Library.Sublist"
begin

section \<open>Navigation guard\<close>

text \<open>
  The guard of \<^verbatim>\<open>safeNavigate\<close> reads three globals of the browser: \<^verbatim>\<open>window\<close> itself
  (absent outside a client), \<^verbatim>\<open>window.location.pathname\<close>, and the two ambient properties
  \<^verbatim>\<open>window.__NEXT_ROUTER_PRESENT\<close> and \<^verbatim>\<open>window.__NEXT_ROUTER\<close>. It calls foreign code in
  three places: \<^verbatim>\<open>router.replace\<close>, \<^verbatim>\<open>router.push\<close> and \<^verbatim>\<open>window.location.assign\<close>. Each
  such call either returns or throws; which of the two is part of the environment. The
  properties of \<^verbatim>\<open>window\<close> are plain values; the handle is whatever value was stored there.

  Strings are byte lists (UTF-8); the guard only compares and concatenates them.
\<close>

type_synonym js_error = string

text \<open>What the guard does to the outside, in the order it does it.\<close>

datatype effect =
    ConsoleLog string
  | ConsoleWarn string js_error
  | RouterReplace string bool
  | RouterPush string
  | LocationAssign string

text \<open>
  A truthy \<^verbatim>\<open>__NEXT_ROUTER\<close> is a value of any kind, so its \<^verbatim>\<open>replace\<close> and \<^verbatim>\<open>push\<close> need
  not be functions. A property of the handle is one of three things: a function, given
  here by what a call of it with the target path does (\<open>None\<close> when it returns, \<open>Some e\<close>
  when it throws \<open>e\<close>); a value that cannot be called, \<^verbatim>\<open>undefined\<close> for a property that
  is missing; or an accessor that throws when the property is read.
\<close>

datatype property =
    Callable "string \<Rightarrow> js_error option"
  | NotCallable
  | ReadThrows js_error

record router =
  router_replace :: property
  router_push :: property

text \<open>
  The browser navigation context. \<open>NEXT_ROUTER_PRESENT\<close> is the truthiness of the flag,
  \<open>NEXT_ROUTER\<close> is \<open>None\<close> for a falsy handle, and \<open>assign_outcome p\<close> tells whether
  \<^verbatim>\<open>window.location.assign(p)\<close> returns (\<open>None\<close>) or throws.
\<close>

record window =
  pathname :: string
  NEXT_ROUTER_PRESENT :: bool
  NEXT_ROUTER :: "router option"
  assign_outcome :: "string \<Rightarrow> js_error option"

record world =
  window :: "window option"
  effects :: "effect list"

definition emit :: "effect \<Rightarrow> world \<Rightarrow> world" where
  "emit e w = w\<lparr>effects := effects w @ [e]\<rparr>"

text \<open>The template literal of the skip message; it starts with U+1F6AB.\<close>

definition same_url_message :: "string \<Rightarrow> string" where
  "same_url_message targetPath =
     [CHR 0xF0, CHR 0x9F, CHR 0x9A, CHR 0xAB] @ '' Same URL navigation skipped: '' @ targetPath"

text \<open>The \<^verbatim>\<open>try\<close>/\<^verbatim>\<open>catch\<close> block at the end of \<^verbatim>\<open>safeNavigate\<close>.\<close>

definition location_fallback :: "window \<Rightarrow> world \<Rightarrow> string \<Rightarrow> (js_error + bool) \<times> world" where
  "location_fallback win w targetPath =
     (case assign_outcome win targetPath of
        None \<Rightarrow> (Inr True, emit (LocationAssign targetPath) w)
      | Some error \<Rightarrow>
          (Inr False,
           emit (ConsoleWarn ''Navigation fallback failed:'' error)
             (emit (LocationAssign targetPath) w)))"

text \<open>
  The call expressions \<^verbatim>\<open>router.replace(...)\<close> and \<^verbatim>\<open>router.push(...)\<close>. The property is read,
  then called if it is a function: only then is the operation of the handle invoked, which
  the trace records. A property that is not a function makes the expression throw a
  TypeError, \<open>not_a_function\<close>, with nothing invoked. The first component of the result is
  what the expression throws, if anything.
\<close>

definition call_property ::
  "property \<Rightarrow> js_error \<Rightarrow> effect \<Rightarrow> string \<Rightarrow> world \<Rightarrow> js_error option \<times> world" where
  "call_property f not_a_function invocation targetPath w =
     (case f of
        Callable outcome \<Rightarrow> (outcome targetPath, emit invocation w)
      | NotCallable \<Rightarrow> (Some not_a_function, w)
      | ReadThrows error \<Rightarrow> (Some error, w))"

text \<open>
  The result is \<open>Inl e\<close> when the call throws \<open>e\<close> and \<open>Inr b\<close> when it returns \<open>b\<close>.
  The calls to the router are outside the \<^verbatim>\<open>try\<close> block, so what they throw leaves
  the function. The second test of \<^verbatim>\<open>typeof window\<close>, in front of the flag, is always
  true where it stands and has no branch of its own here.
\<close>

definition safeNavigate :: "world \<Rightarrow> string \<Rightarrow> bool \<Rightarrow> (js_error + bool) \<times> world" where
  "safeNavigate w targetPath useReplace =
     (case window w of
        None \<Rightarrow> (Inr False, w)
      | Some win \<Rightarrow>
          if pathname win = targetPath then
            (Inr False, emit (ConsoleLog (same_url_message targetPath)) w)
          else if NEXT_ROUTER_PRESENT win then
            (case NEXT_ROUTER win of
               Some router \<Rightarrow>
                 (case (if useReplace then
                          call_property (router_replace router)
                            ''TypeError: router.replace is not a function''
                            (RouterReplace targetPath True) targetPath w
                        else
                          call_property (router_push router)
                            ''TypeError: router.push is not a function''
                            (RouterPush targetPath) targetPath w) of
                    (Some error, w') \<Rightarrow> (Inl error, w')
                  | (None, w') \<Rightarrow> (Inr True, w'))
             | None \<Rightarrow> location_fallback win w targetPath)
          else location_fallback win w targetPath)"

text \<open>A call that leaves the second argument out takes the default \<^verbatim>\<open>true\<close>.\<close>

definition safeNavigate_default :: "world \<Rightarrow> string \<Rightarrow> (js_error + bool) \<times> world" where
  "safeNavigate_default w targetPath = safeNavigate w targetPath True"

definition navigateToHome :: "world \<Rightarrow> (js_error + bool) \<times> world" where
  "navigateToHome w = safeNavigate w ''/'' True"

definition navigateToTerminal :: "world \<Rightarrow> (js_error + bool) \<times> world" where
  "navigateToTerminal w = safeNavigate w ''/terminal-simple'' True"

text \<open>Counting the calls a run of the guard added to the trace.\<close>

fun is_router_replace :: "effect \<Rightarrow> bool" where
  "is_router_replace (RouterReplace _ _) = True"
| "is_router_replace _ = False"

fun is_router_push :: "effect \<Rightarrow> bool" where
  "is_router_push (RouterPush _) = True"
| "is_router_push _ = False"

fun is_location_write :: "effect \<Rightarrow> bool" where
  "is_location_write (LocationAssign _) = True"
| "is_location_write _ = False"

definition added :: "world \<Rightarrow> world \<Rightarrow> effect list" where
  "added w w' = drop (length (effects w)) (effects w')"

definition calls :: "(effect \<Rightarrow> bool) \<Rightarrow> world \<Rightarrow> world \<Rightarrow> nat" where
  "calls P w w' = length (filter P (added w w'))"

section \<open>Security header middleware\<close>

text \<open>
  A \<^verbatim>\<open>Headers\<close> object maps header names to values and ignores the case of the name:
  it is a map keyed by the lower-cased name.
\<close>

definition lower_ascii :: "char \<Rightarrow> char" where
  "lower_ascii c =
     (let n = (of_char c :: nat) in if 65 \<le> n \<and> n \<le> 90 then char_of (n + 32) else c)"

type_synonym headers = "string \<rightharpoonup> string"

definition headers_set :: "headers \<Rightarrow> string \<Rightarrow> string \<Rightarrow> headers" where
  "headers_set h name v = h(map lower_ascii name \<mapsto> v)"

definition headers_get :: "headers \<Rightarrow> string \<Rightarrow> string option" where
  "headers_get h name = h (map lower_ascii name)"

record response =
  response_headers :: headers

record request =
  nextUrl_pathname :: string

text \<open>
  \<open>NODE_ENV\<close> is \<^verbatim>\<open>process.env.NODE_ENV\<close> (\<open>None\<close> when unset) and \<open>next_response\<close> is the
  fresh response \<^verbatim>\<open>NextResponse.next()\<close> returns, which the framework builds.
\<close>

definition middleware :: "string option \<Rightarrow> response \<Rightarrow> request \<Rightarrow> response" where
  "middleware NODE_ENV next_response request =
     (let pathname = nextUrl_pathname request in
      if NODE_ENV = Some ''development'' then next_response
      else
        let response = next_response;
            response = response\<lparr>response_headers :=
              headers_set (response_headers response) ''X-Frame-Options'' ''SAMEORIGIN''\<rparr>;
            response = response\<lparr>response_headers :=
              headers_set (response_headers response) ''X-Content-Type-Options'' ''nosniff''\<rparr>
        in response)"

text \<open>
  The matcher is the pattern \<^verbatim>\<open>/((?!_next/static|_next/image|favicon.ico|public).*)\<close>, a
  regular expression that has to match the whole pathname. The expressions it is built
  from: a character, the wildcard dot, sequence, alternatives, repetition and the negative
  lookahead. The two groups of the pattern only capture and do not change what it accepts.
\<close>

datatype regex =
    Eps
  | Chr char
  | Dot
  | Seq regex regex
  | Alt regex regex
  | Star regex
  | NegLookahead regex

text \<open>The dot stands for any character but a line terminator.\<close>

definition dot_matches :: "char \<Rightarrow> bool" where
  "dot_matches c = (c \<noteq> CHR 0x0A \<and> c \<noteq> CHR 0x0D)"

text \<open>
  \<open>rests r s\<close> lists what is left of \<open>s\<close> after each way \<open>r\<close> can match at its start. A
  repetition goes on only after a round that has consumed something, so that \<open>length s\<close>
  rounds are all there can be. A lookahead consumes nothing.
\<close>

fun iterate :: "nat \<Rightarrow> (string \<Rightarrow> string list) \<Rightarrow> string \<Rightarrow> string list" where
  "iterate 0 once s = [s]"
| "iterate (Suc n) once s =
     s # concat (map (iterate n once) (filter (\<lambda>t. length t < length s) (once s)))"

fun rests :: "regex \<Rightarrow> string \<Rightarrow> string list" where
  "rests Eps s = [s]"
| "rests (Chr c) s = (case s of [] \<Rightarrow> [] | x # xs \<Rightarrow> if x = c then [xs] else [])"
| "rests Dot s = (case s of [] \<Rightarrow> [] | x # xs \<Rightarrow> if dot_matches x then [xs] else [])"
| "rests (Seq a b) s = concat (map (rests b) (rests a s))"
| "rests (Alt a b) s = rests a s @ rests b s"
| "rests (Star a) s = iterate (length s) (\<lambda>t. rests a t) s"
| "rests (NegLookahead a) s = (if rests a s = [] then [s] else [])"

text \<open>A match of the whole string leaves nothing.\<close>

definition matches :: "regex \<Rightarrow> string \<Rightarrow> bool" where
  "matches r s = ([] \<in> set (rests r s))"

fun lit :: "string \<Rightarrow> regex" where
  "lit [] = Eps"
| "lit (c # cs) = Seq (Chr c) (lit cs)"

definition matcher_pattern :: regex where
  "matcher_pattern =
     Seq (Chr CHR ''/'')
       (Seq (NegLookahead
               (Alt (lit ''_next/static'')
                 (Alt (lit ''_next/image'')
                   (Alt (Seq (lit ''favicon'') (Seq Dot (lit ''ico'')))
                     (lit ''public'')))))
          (Star Dot))"

definition config_matcher :: "string \<Rightarrow> bool" where
  "config_matcher p = matches matcher_pattern p"

text \<open>The framework runs the middleware on the requests whose pathname the matcher accepts.\<close>

definition run_middleware :: "string option \<Rightarrow> response \<Rightarrow> request \<Rightarrow> response option" where
  "run_middleware NODE_ENV next_response request =
     (if config_matcher (nextUrl_pathname request)
      then Some (middleware NODE_ENV next_response request) else None)"

section \<open>Voice feedback shim\<close>

text \<open>
  The module has one piece of state, the static field \<^verbatim>\<open>VoiceFeedback.instance\<close>. Objects
  are references; \<^verbatim>\<open>new VoiceFeedback()\<close> takes the next unused one. \<open>spoken\<close> is what the
  module has sent to a speech engine.
\<close>

type_synonym ref = nat

record tts_state =
  VoiceFeedback_instance :: "ref option"
  next_ref :: ref
  spoken :: "string list"

datatype 'a promise = Resolved 'a | Rejected js_error

datatype priority = high | medium | low

definition speak :: "string \<Rightarrow> tts_state \<Rightarrow> unit promise \<times> tts_state" where
  "speak arg_text s = (Resolved (), s)"

definition stopSpeak :: "tts_state \<Rightarrow> unit \<times> tts_state" where
  "stopSpeak s = ((), s)"

definition isTTSEnabled :: "tts_state \<Rightarrow> bool \<times> tts_state" where
  "isTTSEnabled s = (False, s)"

definition getInstance :: "tts_state \<Rightarrow> ref \<times> tts_state" where
  "getInstance s =
     (case VoiceFeedback_instance s of
        None \<Rightarrow> (next_ref s, s\<lparr>VoiceFeedback_instance := Some (next_ref s),
                          next_ref := Suc (next_ref s)\<rparr>)
      | Some r \<Rightarrow> (r, s))"

text \<open>The methods take the receiver first. A number argument is of any type \<open>'n\<close>.\<close>

definition setEnabled :: "ref \<Rightarrow> bool \<Rightarrow> tts_state \<Rightarrow> unit \<times> tts_state" where
  "setEnabled this arg_enabled s = ((), s)"

definition setVolume :: "ref \<Rightarrow> 'n \<Rightarrow> tts_state \<Rightarrow> unit \<times> tts_state" where
  "setVolume this arg_volume s = ((), s)"

definition setRate :: "ref \<Rightarrow> 'n \<Rightarrow> tts_state \<Rightarrow> unit \<times> tts_state" where
  "setRate this arg_rate s = ((), s)"

definition VoiceFeedback_speak ::
  "ref \<Rightarrow> string \<Rightarrow> priority option \<Rightarrow> tts_state \<Rightarrow> unit \<times> tts_state" where
  "VoiceFeedback_speak this arg_text arg_priority s = ((), s)"

definition safeSpeak ::
  "ref \<Rightarrow> string \<Rightarrow> priority option \<Rightarrow> tts_state \<Rightarrow> unit \<times> tts_state" where
  "safeSpeak this arg_text arg_priority s = ((), s)"

definition stop :: "ref \<Rightarrow> tts_state \<Rightarrow> unit \<times> tts_state" where
  "stop this s = ((), s)"

definition announceAmount :: "ref \<Rightarrow> 'n \<Rightarrow> tts_state \<Rightarrow> unit \<times> tts_state" where
  "announceAmount this arg_amount s = ((), s)"

definition announcePaymentStart :: "ref \<Rightarrow> tts_state \<Rightarrow> unit \<times> tts_state" where
  "announcePaymentStart this s = ((), s)"

definition announcePaymentComplete :: "ref \<Rightarrow> tts_state \<Rightarrow> unit \<times> tts_state" where
  "announcePaymentComplete this s = ((), s)"

definition announceError :: "ref \<Rightarrow> string \<Rightarrow> tts_state \<Rightarrow> unit \<times> tts_state" where
  "announceError this arg_error s = ((), s)"

definition announceStep :: "ref \<Rightarrow> string \<Rightarrow> tts_state \<Rightarrow> unit \<times> tts_state" where
  "announceStep this arg_step s = ((), s)"

text \<open>
  An execution is a list of calls into the module, run in order from a state; the
  numbers passed to the module are integers here.
\<close>

datatype tts_call =
    Speak string
  | StopSpeak
  | IsTTSEnabled
  | GetInstance
  | SetEnabled ref bool
  | SetVolume ref int
  | SetRate ref int
  | MSpeak ref string "priority option"
  | SafeSpeak ref string "priority option"
  | Stop ref
  | AnnounceAmount ref int
  | AnnouncePaymentStart ref
  | AnnouncePaymentComplete ref
  | AnnounceError ref string
  | AnnounceStep ref string

datatype tts_result = Void | Settled "unit promise" | Flag bool | Object ref

definition void :: "unit \<times> tts_state \<Rightarrow> tts_result \<times> tts_state" where
  "void r = (Void, snd r)"

fun exec :: "tts_call \<Rightarrow> tts_state \<Rightarrow> tts_result \<times> tts_state" where
  "exec (Speak t) s = (let (p, s') = speak t s in (Settled p, s'))"
| "exec StopSpeak s = void (stopSpeak s)"
| "exec IsTTSEnabled s = (let (b, s') = isTTSEnabled s in (Flag b, s'))"
| "exec GetInstance s = (let (r, s') = getInstance s in (Object r, s'))"
| "exec (SetEnabled this b) s = void (setEnabled this b s)"
| "exec (SetVolume this v) s = void (setVolume this v s)"
| "exec (SetRate this v) s = void (setRate this v s)"
| "exec (MSpeak this t p) s = void (VoiceFeedback_speak this t p s)"
| "exec (SafeSpeak this t p) s = void (safeSpeak this t p s)"
| "exec (Stop this) s = void (stop this s)"
| "exec (AnnounceAmount this a) s = void (announceAmount this a s)"
| "exec (AnnouncePaymentStart this) s = void (announcePaymentStart this s)"
| "exec (AnnouncePaymentComplete this) s = void (announcePaymentComplete this s)"
| "exec (AnnounceError this e) s = void (announceError this e s)"
| "exec (AnnounceStep this t) s = void (announceStep this t s)"

fun run :: "tts_call list \<Rightarrow> tts_state \<Rightarrow> tts_result list \<times> tts_state" where
  "run [] s = ([], s)"
| "run (c # cs) s =
     (let (r, s') = exec c s; (rs, s'') = run cs s' in (r # rs, s''))"

text \<open>The state of a freshly loaded module: the static field is still undefined.\<close>

definition tts_initial :: tts_state where
  "tts_initial = \<lparr>VoiceFeedback_instance = None, next_ref = 0, spoken = []\<rparr>"

section \<open>Example environments\<close>

text \<open>
  A handle whose operations return, one whose operations throw, and the empty object
  \<^verbatim>\<open>{}\<close>, which has neither operation.
\<close>

definition quiet_router :: router where
  "quiet_router =
     \<lparr>router_replace = Callable (\<lambda>_. None), router_push = Callable (\<lambda>_. None)\<rparr>"

definition broken_router :: router where
  "broken_router =
     \<lparr>router_replace = Callable (\<lambda>_. Some ''Error: route change aborted''),
      router_push = Callable (\<lambda>_. Some ''Error: route change aborted'')\<rparr>"

definition empty_router :: router where
  "empty_router = \<lparr>router_replace = NotCallable, router_push = NotCallable\<rparr>"

definition browser :: "string \<Rightarrow> bool \<Rightarrow> router option \<Rightarrow> js_error option \<Rightarrow> window" where
  "browser path flag handle assign_result =
     \<lparr>pathname = path, NEXT_ROUTER_PRESENT = flag, NEXT_ROUTER = handle,
      assign_outcome = (\<lambda>_. assign_result)\<rparr>"

definition page :: "window \<Rightarrow> world" where
  "page win = \<lparr>window = Some win, effects = []\<rparr>"

definition server :: world where
  "server = \<lparr>window = None, effects = []\<rparr>"

definition plain_response :: response where
  "plain_response = \<lparr>response_headers = [''x-middleware-next'' \<mapsto> ''1'']\<rparr>"

definition request_for :: "string \<Rightarrow> request" where
  "request_for p = \<lparr>nextUrl_pathname = p\<rparr>"

section \<open>Theorems about the navigation guard\<close>

lemma added_emit: "added w (emit e w) = [e]"
  by (simp add: added_def emit_def)

lemma added_emit2: "added w (emit e2 (emit e1 w)) = [e1, e2]"
  by (simp add: added_def emit_def)

lemma added_same: "added w w = []"
  by (simp add: added_def)

lemma window_page: "window (page win) = Some win"
  by (simp add: page_def)

lemma browser_simps:
  "pathname (browser p f h a) = p"
  "NEXT_ROUTER_PRESENT (browser p f h a) = f"
  "NEXT_ROUTER (browser p f h a) = h"
  "assign_outcome (browser p f h a) q = a"
  by (simp_all add: browser_def)

lemma router_simps:
  "router_replace quiet_router = Callable (\<lambda>_. None)"
  "router_push quiet_router = Callable (\<lambda>_. None)"
  "router_replace broken_router = Callable (\<lambda>_. Some ''Error: route change aborted'')"
  "router_push broken_router = Callable (\<lambda>_. Some ''Error: route change aborted'')"
  "router_replace empty_router = NotCallable"
  "router_push empty_router = NotCallable"
  by (simp_all add: quiet_router_def broken_router_def empty_router_def)

text \<open>
  The two ways past the same-path check: through the router when flag and handle are both
  there, and through the fallback otherwise.
\<close>

lemma safeNavigate_router:
  assumes "window w = Some win" and "pathname win \<noteq> targetPath"
    and "NEXT_ROUTER_PRESENT win" and "NEXT_ROUTER win = Some r"
  shows "safeNavigate w targetPath useReplace =
           (case (if useReplace then
                    call_property (router_replace r)
                      ''TypeError: router.replace is not a function''
                      (RouterReplace targetPath True) targetPath w
                  else
                    call_property (router_push r)
                      ''TypeError: router.push is not a function''
                      (RouterPush targetPath) targetPath w) of
              (Some error, w') \<Rightarrow> (Inl error, w')
            | (None, w') \<Rightarrow> (Inr True, w'))"
  using assms by (simp add: safeNavigate_def)

lemma safeNavigate_replace:
  assumes "window w = Some win" and "pathname win \<noteq> targetPath"
    and "NEXT_ROUTER_PRESENT win" and "NEXT_ROUTER win = Some r"
  shows "router_replace r = Callable f \<Longrightarrow>
           safeNavigate w targetPath True =
             (case f targetPath of Some e \<Rightarrow> Inl e | None \<Rightarrow> Inr True,
              emit (RouterReplace targetPath True) w)"
    and "router_replace r = NotCallable \<Longrightarrow>
           safeNavigate w targetPath True =
             (Inl ''TypeError: router.replace is not a function'', w)"
    and "router_replace r = ReadThrows e \<Longrightarrow> safeNavigate w targetPath True = (Inl e, w)"
  by (simp_all add: safeNavigate_router [OF assms] call_property_def split: option.splits)

lemma safeNavigate_push:
  assumes "window w = Some win" and "pathname win \<noteq> targetPath"
    and "NEXT_ROUTER_PRESENT win" and "NEXT_ROUTER win = Some r"
  shows "router_push r = Callable f \<Longrightarrow>
           safeNavigate w targetPath False =
             (case f targetPath of Some e \<Rightarrow> Inl e | None \<Rightarrow> Inr True,
              emit (RouterPush targetPath) w)"
    and "router_push r = NotCallable \<Longrightarrow>
           safeNavigate w targetPath False =
             (Inl ''TypeError: router.push is not a function'', w)"
    and "router_push r = ReadThrows e \<Longrightarrow> safeNavigate w targetPath False = (Inl e, w)"
  by (simp_all add: safeNavigate_router [OF assms] call_property_def split: option.splits)

text \<open>Whatever the handle is, the way through the router does not write the location.\<close>

lemma safeNavigate_router_no_write:
  assumes "window w = Some win" and "pathname win \<noteq> targetPath"
    and "NEXT_ROUTER_PRESENT win" and "NEXT_ROUTER win = Some r"
  shows "calls is_location_write w (snd (safeNavigate w targetPath useReplace)) = 0"
proof (cases useReplace)
  case True
  then show ?thesis
    by (cases "router_replace r")
      (simp_all add: safeNavigate_replace [OF assms] calls_def added_emit added_same)
next
  case False
  then show ?thesis
    by (cases "router_push r")
      (simp_all add: safeNavigate_push [OF assms] calls_def added_emit added_same)
qed

lemma safeNavigate_fallback:
  assumes "window w = Some win" and "pathname win \<noteq> targetPath"
    and "\<not> NEXT_ROUTER_PRESENT win \<or> NEXT_ROUTER win = None"
  shows "safeNavigate w targetPath b = location_fallback win w targetPath"
  using assms by (auto simp add: safeNavigate_def split: option.splits)

lemma location_fallback_cases:
  "assign_outcome win targetPath = None \<Longrightarrow>
     location_fallback win w targetPath = (Inr True, emit (LocationAssign targetPath) w)"
  "assign_outcome win targetPath = Some e \<Longrightarrow>
     location_fallback win w targetPath =
       (Inr False, emit (ConsoleWarn ''Navigation fallback failed:'' e)
          (emit (LocationAssign targetPath) w))"
  by (simp_all add: location_fallback_def)

lemma location_fallback_returns:
  "\<exists>res. fst (location_fallback win w targetPath) = Inr res"
  by (cases "assign_outcome win targetPath") (auto simp add: location_fallback_cases)

lemma location_fallback_added:
  "hd (added w (snd (location_fallback win w targetPath))) = LocationAssign targetPath"
  "calls is_location_write w (snd (location_fallback win w targetPath)) = 1"
  by (cases "assign_outcome win targetPath";
      simp add: location_fallback_cases calls_def added_emit added_emit2)+

lemma location_fallback_flag:
  "fst (location_fallback (win\<lparr>NEXT_ROUTER_PRESENT := f\<rparr>) (w\<lparr>window := x\<rparr>) targetPath) =
     fst (location_fallback win w targetPath)"
  "added (w\<lparr>window := x\<rparr>)
     (snd (location_fallback (win\<lparr>NEXT_ROUTER_PRESENT := f\<rparr>) (w\<lparr>window := x\<rparr>) targetPath)) =
   added w (snd (location_fallback win w targetPath))"
  by (cases "assign_outcome win targetPath";
      simp add: location_fallback_def added_def emit_def)+

text \<open>
  Claim C1. When a browser navigation context exists and the target path equals the
  current pathname, \<open>safeNavigate\<close> returns \<open>False\<close> for both values of the second
  argument; all it does is write the skip message to the console: it calls neither
  operation of the router and does not write the location.
\<close>

theorem same_path_skipped:
  "window w = Some win \<Longrightarrow> pathname win = targetPath \<Longrightarrow>
   safeNavigate w targetPath b = (Inr False, emit (ConsoleLog (same_url_message targetPath)) w) \<and>
   calls is_router_replace w (snd (safeNavigate w targetPath b)) = 0 \<and>
   calls is_router_push w (snd (safeNavigate w targetPath b)) = 0 \<and>
   calls is_location_write w (snd (safeNavigate w targetPath b)) = 0"
  by (simp add: safeNavigate_def calls_def added_emit)

text \<open>
  Claim C1, at a concrete input: on the page \<^verbatim>\<open>/terminal-simple\<close>, with a router registered,
  a push navigation to \<^verbatim>\<open>/terminal-simple\<close> is skipped.
\<close>

theorem same_path_skipped_witness:
  "window (page (browser ''/terminal-simple'' True (Some quiet_router) None)) =
     Some (browser ''/terminal-simple'' True (Some quiet_router) None) \<and>
   pathname (browser ''/terminal-simple'' True (Some quiet_router) None) = ''/terminal-simple'' \<and>
   fst (safeNavigate (page (browser ''/terminal-simple'' True (Some quiet_router) None))
     ''/terminal-simple'' False) = Inr False \<and>
   calls is_router_push (page (browser ''/terminal-simple'' True (Some quiet_router) None))
     (snd (safeNavigate (page (browser ''/terminal-simple'' True (Some quiet_router) None))
        ''/terminal-simple'' False)) = 0"
proof -
  let ?win = "browser ''/terminal-simple'' True (Some quiet_router) None"
  have h1: "window (page ?win) = Some ?win" by (rule window_page)
  have h2: "pathname ?win = ''/terminal-simple''" by (simp add: browser_simps)
  note t = same_path_skipped [OF h1 h2, of False]
  from t have r: "fst (safeNavigate (page ?win) ''/terminal-simple'' False) = Inr False"
    by simp
  from t have c: "calls is_router_push (page ?win)
      (snd (safeNavigate (page ?win) ''/terminal-simple'' False)) = 0"
    by blast
  from h1 h2 r c show ?thesis by blast
qed

text \<open>
  Claim C2, as stated, fails in three places. A handle that is present while the presence
  flag is not set is never called: the guard writes the location instead. A handle whose
  operation throws is called once, but then the guard does not return \<open>True\<close>: the
  exception leaves it. And the handle \<^verbatim>\<open>{}\<close>, with the flag set, has no replace operation
  to invoke: the guard throws a TypeError and nothing was called.
\<close>

theorem router_handle_present_counterexample:
  "NEXT_ROUTER (browser ''/'' False (Some quiet_router) None) = Some quiet_router \<and>
   pathname (browser ''/'' False (Some quiet_router) None) \<noteq> ''/terminal-simple'' \<and>
   safeNavigate (page (browser ''/'' False (Some quiet_router) None)) ''/terminal-simple'' True =
     (Inr True, emit (LocationAssign ''/terminal-simple'')
        (page (browser ''/'' False (Some quiet_router) None))) \<and>
   NEXT_ROUTER (browser ''/'' True (Some broken_router) None) = Some broken_router \<and>
   safeNavigate (page (browser ''/'' True (Some broken_router) None)) ''/terminal-simple'' False =
     (Inl ''Error: route change aborted'', emit (RouterPush ''/terminal-simple'')
        (page (browser ''/'' True (Some broken_router) None))) \<and>
   NEXT_ROUTER (browser ''/'' True (Some empty_router) None) = Some empty_router \<and>
   safeNavigate (page (browser ''/'' True (Some empty_router) None)) ''/terminal-simple'' True =
     (Inl ''TypeError: router.replace is not a function'',
      page (browser ''/'' True (Some empty_router) None))"
  by (simp add: safeNavigate_def location_fallback_def call_property_def window_page
      browser_simps router_simps)

text \<open>
  Claim C2, amended. For a target path different from the current pathname, when the
  presence flag is set and a handle is present: \<open>safeNavigate\<close> with \<open>True\<close> calls the
  handle's replace operation exactly once if that operation is a function, and with
  \<open>False\<close> its push operation exactly once if that operation is a function. It returns
  \<open>True\<close> when the operation it called returns. In no case does it write the location.
\<close>

theorem router_used:
  "window w = Some win \<Longrightarrow> pathname win \<noteq> targetPath \<Longrightarrow>
   NEXT_ROUTER_PRESENT win \<Longrightarrow> NEXT_ROUTER win = Some r \<Longrightarrow>
   (\<forall>replace. router_replace r = Callable replace \<longrightarrow>
      added w (snd (safeNavigate w targetPath True)) = [RouterReplace targetPath True] \<and>
      calls is_router_replace w (snd (safeNavigate w targetPath True)) = 1 \<and>
      (replace targetPath = None \<longrightarrow>
         safeNavigate w targetPath True = (Inr True, emit (RouterReplace targetPath True) w))) \<and>
   (\<forall>push. router_push r = Callable push \<longrightarrow>
      added w (snd (safeNavigate w targetPath False)) = [RouterPush targetPath] \<and>
      calls is_router_push w (snd (safeNavigate w targetPath False)) = 1 \<and>
      (push targetPath = None \<longrightarrow>
         safeNavigate w targetPath False = (Inr True, emit (RouterPush targetPath) w))) \<and>
   calls is_location_write w (snd (safeNavigate w targetPath True)) = 0 \<and>
   calls is_location_write w (snd (safeNavigate w targetPath False)) = 0"
proof -
  assume h: "window w = Some win" "pathname win \<noteq> targetPath"
    "NEXT_ROUTER_PRESENT win" "NEXT_ROUTER win = Some r"
  have replaced: "added w (snd (safeNavigate w targetPath True)) = [RouterReplace targetPath True]"
    "calls is_router_replace w (snd (safeNavigate w targetPath True)) = 1"
    "replace targetPath = None \<longrightarrow>
       safeNavigate w targetPath True = (Inr True, emit (RouterReplace targetPath True) w)"
    if "router_replace r = Callable replace" for replace
    using safeNavigate_replace(1) [OF h that] by (simp_all add: calls_def added_emit)
  have pushed: "added w (snd (safeNavigate w targetPath False)) = [RouterPush targetPath]"
    "calls is_router_push w (snd (safeNavigate w targetPath False)) = 1"
    "push targetPath = None \<longrightarrow>
       safeNavigate w targetPath False = (Inr True, emit (RouterPush targetPath) w)"
    if "router_push r = Callable push" for push
    using safeNavigate_push(1) [OF h that] by (simp_all add: calls_def added_emit)
  from replaced pushed safeNavigate_router_no_write [OF h] show ?thesis by blast
qed

text \<open>
  Claim C2, amended, at a concrete input: from \<^verbatim>\<open>/\<close> to \<^verbatim>\<open>/terminal-simple\<close> with a
  registered router whose operations are functions that return.
\<close>

theorem router_used_witness:
  "window (page (browser ''/'' True (Some quiet_router) None)) =
     Some (browser ''/'' True (Some quiet_router) None) \<and>
   pathname (browser ''/'' True (Some quiet_router) None) \<noteq> ''/terminal-simple'' \<and>
   NEXT_ROUTER_PRESENT (browser ''/'' True (Some quiet_router) None) \<and>
   NEXT_ROUTER (browser ''/'' True (Some quiet_router) None) = Some quiet_router \<and>
   router_replace quiet_router = Callable (\<lambda>_. None) \<and>
   router_push quiet_router = Callable (\<lambda>_. None) \<and>
   safeNavigate (page (browser ''/'' True (Some quiet_router) None)) ''/terminal-simple'' True =
     (Inr True, emit (RouterReplace ''/terminal-simple'' True)
        (page (browser ''/'' True (Some quiet_router) None))) \<and>
   safeNavigate (page (browser ''/'' True (Some quiet_router) None)) ''/terminal-simple'' False =
     (Inr True, emit (RouterPush ''/terminal-simple'')
        (page (browser ''/'' True (Some quiet_router) None))) \<and>
   calls is_router_replace (page (browser ''/'' True (Some quiet_router) None))
     (snd (safeNavigate (page (browser ''/'' True (Some quiet_router) None))
        ''/terminal-simple'' True)) = 1 \<and>
   calls is_router_push (page (browser ''/'' True (Some quiet_router) None))
     (snd (safeNavigate (page (browser ''/'' True (Some quiet_router) None))
        ''/terminal-simple'' False)) = 1"
proof -
  let ?win = "browser ''/'' True (Some quiet_router) None"
  have h1: "window (page ?win) = Some ?win" by (rule window_page)
  have h2: "pathname ?win \<noteq> ''/terminal-simple''" by (simp add: browser_simps)
  have h3: "NEXT_ROUTER_PRESENT ?win" by (simp add: browser_simps)
  have h4: "NEXT_ROUTER ?win = Some quiet_router" by (simp add: browser_simps)
  have h5: "router_replace quiet_router = Callable (\<lambda>_. None)"
    and h6: "router_push quiet_router = Callable (\<lambda>_. None)"
    by (simp_all add: router_simps)
  have h7: "(\<lambda>_. None :: js_error option) ''/terminal-simple'' = None" by simp
  from router_used [OF h1 h2 h3 h4] h1 h2 h3 h4 h5 h6 h7 show ?thesis by blast
qed

text \<open>
  Claim C3. For a target path different from the current pathname, with a browser
  navigation context and no router handle, \<open>safeNavigate\<close> calls
  \<^verbatim>\<open>window.location.assign\<close> with the target path exactly once. It returns \<open>True\<close> when
  that call returns. When the call throws, the exception is caught, a warning goes to the
  console and the result is \<open>False\<close>: in both cases \<open>safeNavigate\<close> returns.
\<close>

theorem fallback_navigation:
  "window w = Some win \<Longrightarrow> pathname win \<noteq> targetPath \<Longrightarrow> NEXT_ROUTER win = None \<Longrightarrow>
   (assign_outcome win targetPath = None \<longrightarrow>
      safeNavigate w targetPath b = (Inr True, emit (LocationAssign targetPath) w)) \<and>
   (\<forall>e. assign_outcome win targetPath = Some e \<longrightarrow>
      safeNavigate w targetPath b =
        (Inr False, emit (ConsoleWarn ''Navigation fallback failed:'' e)
           (emit (LocationAssign targetPath) w))) \<and>
   calls is_location_write w (snd (safeNavigate w targetPath b)) = 1 \<and>
   hd (added w (snd (safeNavigate w targetPath b))) = LocationAssign targetPath \<and>
   (\<exists>res. fst (safeNavigate w targetPath b) = Inr res)"
proof -
  assume h: "window w = Some win" "pathname win \<noteq> targetPath" "NEXT_ROUTER win = None"
  then have fb: "safeNavigate w targetPath b = location_fallback win w targetPath"
    by (simp add: safeNavigate_fallback)
  show ?thesis
    unfolding fb
    using location_fallback_cases location_fallback_added location_fallback_returns
    by blast
qed

text \<open>
  Claim C3, at two concrete inputs: a page without router where the location write
  succeeds, and one where it throws a \<^verbatim>\<open>SecurityError\<close>.
\<close>

theorem fallback_navigation_witness:
  "window (page (browser ''/'' False None None)) = Some (browser ''/'' False None None) \<and>
   pathname (browser ''/'' False None None) \<noteq> ''/terminal-simple'' \<and>
   NEXT_ROUTER (browser ''/'' False None None) = None \<and>
   assign_outcome (browser ''/'' False None None) ''/terminal-simple'' = None \<and>
   safeNavigate (page (browser ''/'' False None None)) ''/terminal-simple'' True =
     (Inr True, emit (LocationAssign ''/terminal-simple'') (page (browser ''/'' False None None))) \<and>
   assign_outcome (browser ''/'' False None (Some ''SecurityError'')) ''/terminal-simple'' =
     Some ''SecurityError'' \<and>
   safeNavigate (page (browser ''/'' False None (Some ''SecurityError''))) ''/terminal-simple'' True =
     (Inr False, emit (ConsoleWarn ''Navigation fallback failed:'' ''SecurityError'')
        (emit (LocationAssign ''/terminal-simple'')
           (page (browser ''/'' False None (Some ''SecurityError'')))))"
proof -
  let ?ok = "browser ''/'' False None None"
  let ?bad = "browser ''/'' False None (Some ''SecurityError'')"
  have a1: "window (page ?ok) = Some ?ok" by (rule window_page)
  have a2: "pathname ?ok \<noteq> ''/terminal-simple''" by (simp add: browser_simps)
  have a3: "NEXT_ROUTER ?ok = None" by (simp add: browser_simps)
  have a4: "assign_outcome ?ok ''/terminal-simple'' = None" by (simp add: browser_simps)
  have b1: "window (page ?bad) = Some ?bad" by (rule window_page)
  have b2: "pathname ?bad \<noteq> ''/terminal-simple''" by (simp add: browser_simps)
  have b3: "NEXT_ROUTER ?bad = None" by (simp add: browser_simps)
  have b4: "assign_outcome ?bad ''/terminal-simple'' = Some ''SecurityError''"
    by (simp add: browser_simps)
  from fallback_navigation [OF a1 a2 a3, of True] fallback_navigation [OF b1 b2 b3, of True]
    a1 a2 a3 a4 b4
  show ?thesis by blast
qed




text \<open>
  Claim C5. Without a browser navigation context \<open>safeNavigate\<close> returns \<open>False\<close> for
  every target path and both values of the second argument, and the world after the call
  is the world before it: nothing was called, written or changed.
\<close>

theorem no_window:
  "window w = None \<Longrightarrow> safeNavigate w targetPath useReplace = (Inr False, w)"
  by (simp add: safeNavigate_def)

text \<open>Claim C5, at a concrete input: a call on the server.\<close>

theorem no_window_witness:
  "window server = None \<and> safeNavigate server ''/terminal-simple'' False = (Inr False, server)"
proof -
  have h: "window server = None" by (simp add: server_def)
  from no_window [OF h] h show ?thesis by blast
qed

text \<open>
  Claim C6. In every world \<open>navigateToHome\<close> has the result and the effects of
  \<open>safeNavigate\<close> on \<^verbatim>\<open>/\<close> with \<open>True\<close>, and \<open>navigateToTerminal\<close> those of \<open>safeNavigate\<close> on
  \<^verbatim>\<open>/terminal-simple\<close> with \<open>True\<close>.
\<close>

theorem wrappers:
  "navigateToHome w = safeNavigate w ''/'' True \<and>
   navigateToTerminal w = safeNavigate w ''/terminal-simple'' True"
  by (simp add: navigateToHome_def navigateToTerminal_def)

text \<open>
  Claim C9, as stated, fails where the location write throws: the flag is set, the handle
  is absent, the target differs from the pathname, and \<open>safeNavigate\<close> returns \<open>False\<close>.
\<close>

theorem flag_without_handle_counterexample:
  "NEXT_ROUTER_PRESENT (browser ''/'' True None (Some ''SecurityError'')) \<and>
   NEXT_ROUTER (browser ''/'' True None (Some ''SecurityError'')) = None \<and>
   pathname (browser ''/'' True None (Some ''SecurityError'')) \<noteq> ''/terminal-simple'' \<and>
   fst (safeNavigate (page (browser ''/'' True None (Some ''SecurityError'')))
     ''/terminal-simple'' True) = Inr False"
  by (simp add: safeNavigate_def location_fallback_def window_page browser_simps)

text \<open>
  Claim C9, amended. When the presence flag is set but the handle is absent, \<open>safeNavigate\<close>
  on a target path different from the current pathname falls through to the fallback: it
  writes the location once, with the result and the effects it has when the flag is not
  set. It returns \<open>True\<close> when the write returns and \<open>False\<close> when the write throws.
\<close>

theorem flag_without_handle:
  "window w = Some win \<Longrightarrow> pathname win \<noteq> targetPath \<Longrightarrow>
   NEXT_ROUTER_PRESENT win \<Longrightarrow> NEXT_ROUTER win = None \<Longrightarrow>
   fst (safeNavigate w targetPath b) =
     fst (safeNavigate (w\<lparr>window := Some (win\<lparr>NEXT_ROUTER_PRESENT := False\<rparr>)\<rparr>) targetPath b) \<and>
   added w (snd (safeNavigate w targetPath b)) =
     added (w\<lparr>window := Some (win\<lparr>NEXT_ROUTER_PRESENT := False\<rparr>)\<rparr>)
       (snd (safeNavigate (w\<lparr>window := Some (win\<lparr>NEXT_ROUTER_PRESENT := False\<rparr>)\<rparr>) targetPath b)) \<and>
   hd (added w (snd (safeNavigate w targetPath b))) = LocationAssign targetPath \<and>
   calls is_location_write w (snd (safeNavigate w targetPath b)) = 1 \<and>
   (assign_outcome win targetPath = None \<longrightarrow> fst (safeNavigate w targetPath b) = Inr True) \<and>
   (assign_outcome win targetPath \<noteq> None \<longrightarrow> fst (safeNavigate w targetPath b) = Inr False)"
proof -
  assume h: "window w = Some win" "pathname win \<noteq> targetPath"
    "NEXT_ROUTER_PRESENT win" "NEXT_ROUTER win = None"
  let ?win' = "win\<lparr>NEXT_ROUTER_PRESENT := False\<rparr>"
  let ?w' = "w\<lparr>window := Some ?win'\<rparr>"
  from h have flagged: "safeNavigate w targetPath b = location_fallback win w targetPath"
    by (simp add: safeNavigate_fallback)
  have "window ?w' = Some ?win'" "pathname ?win' \<noteq> targetPath" "\<not> NEXT_ROUTER_PRESENT ?win'"
    using h by simp_all
  then have unflagged: "safeNavigate ?w' targetPath b = location_fallback ?win' ?w' targetPath"
    by (simp add: safeNavigate_fallback)
  have "assign_outcome win targetPath = None \<longrightarrow> fst (location_fallback win w targetPath) = Inr True"
    by (simp add: location_fallback_def)
  moreover have "assign_outcome win targetPath \<noteq> None \<longrightarrow>
      fst (location_fallback win w targetPath) = Inr False"
    by (auto simp add: location_fallback_def)
  ultimately show ?thesis
    unfolding flagged unflagged
    by (simp add: location_fallback_flag location_fallback_added)
qed

text \<open>
  Claim C9, amended, at two concrete inputs: flag set, no handle, and a location write
  that returns; then the same with a write that throws.
\<close>

theorem flag_without_handle_witness:
  "window (page (browser ''/'' True None None)) = Some (browser ''/'' True None None) \<and>
   pathname (browser ''/'' True None None) \<noteq> ''/terminal-simple'' \<and>
   NEXT_ROUTER_PRESENT (browser ''/'' True None None) \<and>
   NEXT_ROUTER (browser ''/'' True None None) = None \<and>
   assign_outcome (browser ''/'' True None None) ''/terminal-simple'' = None \<and>
   fst (safeNavigate (page (browser ''/'' True None None)) ''/terminal-simple'' False) = Inr True \<and>
   assign_outcome (browser ''/'' True None (Some ''SecurityError'')) ''/terminal-simple'' \<noteq> None \<and>
   fst (safeNavigate (page (browser ''/'' True None (Some ''SecurityError'')))
     ''/terminal-simple'' False) = Inr False"
proof -
  let ?ok = "browser ''/'' True None None"
  let ?bad = "browser ''/'' True None (Some ''SecurityError'')"
  have a1: "window (page ?ok) = Some ?ok" by (rule window_page)
  have a2: "pathname ?ok \<noteq> ''/terminal-simple''" by (simp add: browser_simps)
  have a3: "NEXT_ROUTER_PRESENT ?ok" by (simp add: browser_simps)
  have a4: "NEXT_ROUTER ?ok = None" by (simp add: browser_simps)
  have a5: "assign_outcome ?ok ''/terminal-simple'' = None" by (simp add: browser_simps)
  have b1: "window (page ?bad) = Some ?bad" by (rule window_page)
  have b2: "pathname ?bad \<noteq> ''/terminal-simple''" by (simp add: browser_simps)
  have b3: "NEXT_ROUTER_PRESENT ?bad" by (simp add: browser_simps)
  have b4: "NEXT_ROUTER ?bad = None" by (simp add: browser_simps)
  have b5: "assign_outcome ?bad ''/terminal-simple'' \<noteq> None" by (simp add: browser_simps)
  from flag_without_handle [OF a1 a2 a3 a4, of False] flag_without_handle [OF b1 b2 b3 b4, of False]
    a1 a2 a3 a4 a5 b5
  show ?thesis by blast
qed

section \<open>Theorems about the security header middleware\<close>

lemma lower_ascii_names:
  "map lower_ascii ''X-Frame-Options'' = ''x-frame-options''"
  "map lower_ascii ''X-Content-Type-Options'' = ''x-content-type-options''"
  by code_simp+

text \<open>What the parts of the pattern accept.\<close>

lemma rests_lit: "rests (lit s) t = (if prefix s t then [drop (length s) t] else [])"
  by (induction s arbitrary: t) (auto split: list.splits)

lemma rests_lit_empty: "rests (lit s) t = [] \<longleftrightarrow> \<not> prefix s t"
  by (simp add: rests_lit)

lemma iterate_Dot:
  "length s \<le> n \<Longrightarrow> [] \<in> set (iterate n (\<lambda>t. rests Dot t) s) \<longleftrightarrow> list_all dot_matches s"
proof (induction s arbitrary: n)
  case Nil
  then show ?case by (cases n) simp_all
next
  case (Cons x xs)
  then obtain m where "n = Suc m" "length xs \<le> m" by (cases n) simp_all
  with Cons.IH [of m] show ?case by simp
qed

lemma matches_Star_Dot: "[] \<in> set (rests (Star Dot) s) \<longleftrightarrow> list_all dot_matches s"
  by (simp add: iterate_Dot)

lemma rests_favicon:
  "rests (Seq (lit ''favicon'') (Seq Dot (lit ''ico''))) s = [] \<longleftrightarrow>
   \<not> (\<exists>c tail. dot_matches c \<and> s = ''favicon'' @ c # ''ico'' @ tail)"
proof (cases "prefix ''favicon'' s")
  case False
  then have "\<not> (\<exists>c tail. s = ''favicon'' @ c # ''ico'' @ tail)"
    by (auto simp add: prefix_def)
  with False show ?thesis by (simp only: rests.simps rests_lit) auto
next
  case True
  then obtain t where s: "s = ''favicon'' @ t" by (auto simp add: prefix_def)
  have first: "rests (lit ''favicon'') s = [t]"
    unfolding rests_lit using True by (simp add: s)
  show ?thesis
  proof (cases t)
    case Nil
    with s first show ?thesis by (simp only: rests.simps) simp
  next
    case (Cons c u)
    have outer: "rests (Seq (lit ''favicon'') (Seq Dot (lit ''ico''))) s =
        rests (Seq Dot (lit ''ico'')) t"
      by (simp only: rests.simps(4) [of "lit ''favicon''"] first list.map concat.simps append_Nil2)
    have inner: "rests (Seq Dot (lit ''ico'')) t = [] \<longleftrightarrow> \<not> (dot_matches c \<and> prefix ''ico'' u)"
      by (cases "dot_matches c") (simp_all add: Cons rests_lit del: lit.simps)
    have "prefix ''ico'' u \<longleftrightarrow> (\<exists>tail. u = ''ico'' @ tail)"
      by (auto simp add: prefix_def)
    with outer inner s Cons show ?thesis by auto
  qed
qed

text \<open>
  The pathnames the matcher accepts: a slash, then a rest without line terminator that
  does not start with one of the four alternatives of the lookahead.
\<close>

lemma config_matcher_paths:
  "config_matcher p \<longleftrightarrow>
   (\<exists>rest. p = CHR ''/'' # rest \<and> list_all dot_matches rest \<and>
      \<not> prefix ''_next/static'' rest \<and> \<not> prefix ''_next/image'' rest \<and>
      \<not> (\<exists>c tail. dot_matches c \<and> rest = ''favicon'' @ c # ''ico'' @ tail) \<and>
      \<not> prefix ''public'' rest)"
proof (cases p)
  case Nil
  then show ?thesis by (simp add: config_matcher_def matches_def matcher_pattern_def)
next
  case (Cons x rest)
  let ?look = "Alt (lit ''_next/static'') (Alt (lit ''_next/image'')
    (Alt (Seq (lit ''favicon'') (Seq Dot (lit ''ico''))) (lit ''public'')))"
  have look: "rests ?look rest = [] \<longleftrightarrow>
      \<not> prefix ''_next/static'' rest \<and> \<not> prefix ''_next/image'' rest \<and>
      \<not> (\<exists>c tail. dot_matches c \<and> rest = ''favicon'' @ c # ''ico'' @ tail) \<and>
      \<not> prefix ''public'' rest"
    using rests_favicon [of rest] rests_lit_empty [of _ rest]
    by (simp only: rests.simps(5) append_is_Nil_conv)
  have tail: "[] \<in> set (rests (Seq (NegLookahead ?look) (Star Dot)) rest) \<longleftrightarrow>
      rests ?look rest = [] \<and> list_all dot_matches rest"
    using matches_Star_Dot [of rest] by (simp only: rests.simps(4,7)) simp
  have "config_matcher p \<longleftrightarrow>
      x = CHR ''/'' \<and> [] \<in> set (rests (Seq (NegLookahead ?look) (Star Dot)) rest)"
    unfolding config_matcher_def matches_def matcher_pattern_def Cons
    by (simp only: rests.simps(2,4)) simp
  with tail look Cons show ?thesis by auto
qed

lemma matcher_accepts:
  "config_matcher ''/''"
  "config_matcher ''/terminal-simple''"
  "config_matcher ''/logo.png''"
  "config_matcher ''/_next/data/build/index.json''"
  by (simp_all add: config_matcher_paths dot_matches_def)

lemma matcher_rejects:
  "\<not> config_matcher ''/_next/static/chunks/main.js''"
  "\<not> config_matcher ''/_next/image''"
  "\<not> config_matcher ''/favicon.ico''"
  "\<not> config_matcher ''/public/logo.png''"
  "\<not> config_matcher ''/publicity''"
  "\<not> config_matcher ''/faviconXico''"
  "\<not> config_matcher []"
  by (simp_all add: config_matcher_paths dot_matches_def)

text \<open>
  Claim C7, as stated, fails on its scope. \<^verbatim>\<open>/publicity\<close> and \<^verbatim>\<open>/faviconXico\<close> are neither
  static assets nor the favicon, but the pattern refuses both, since its lookahead stops
  at \<^verbatim>\<open>public\<close> and its dot takes any character: in production a request for either gets
  no header.
\<close>

theorem matcher_scope_counterexample:
  "run_middleware (Some ''production'') plain_response (request_for ''/publicity'') = None \<and>
   run_middleware (Some ''production'') plain_response (request_for ''/faviconXico'') = None"
  by (simp add: run_middleware_def request_for_def config_matcher_def matches_def
      matcher_pattern_def dot_matches_def)

text \<open>
  Claim C7, amended. The middleware runs on the requests the matcher accepts and on no
  other. The matcher accepts the pathnames made of a slash and a rest (without line
  terminator) that does not start with \<^verbatim>\<open>_next/static\<close>, with \<^verbatim>\<open>_next/image\<close>, with
  \<^verbatim>\<open>favicon\<close>, any one character and \<^verbatim>\<open>ico\<close>, or with \<^verbatim>\<open>public\<close>. On such a request, in the
  development environment the middleware returns the response of \<^verbatim>\<open>NextResponse.next()\<close>
  as it is; in every other environment it returns that response with exactly two headers
  set, \<^verbatim>\<open>X-Frame-Options: SAMEORIGIN\<close> and \<^verbatim>\<open>X-Content-Type-Options: nosniff\<close>, and every
  other header as it was.
\<close>

theorem middleware_headers:
  "run_middleware NODE_ENV next_response request =
     (if (\<exists>rest. nextUrl_pathname request = CHR ''/'' # rest \<and> list_all dot_matches rest \<and>
            \<not> prefix ''_next/static'' rest \<and> \<not> prefix ''_next/image'' rest \<and>
            \<not> (\<exists>c tail. dot_matches c \<and> rest = ''favicon'' @ c # ''ico'' @ tail) \<and>
            \<not> prefix ''public'' rest)
      then Some (if NODE_ENV = Some ''development'' then next_response
                 else next_response\<lparr>response_headers :=
                   (response_headers next_response)(''x-frame-options'' \<mapsto> ''SAMEORIGIN'',
                      ''x-content-type-options'' \<mapsto> ''nosniff'')\<rparr>)
      else None) \<and>
   (\<forall>response. NODE_ENV \<noteq> Some ''development'' \<and>
        run_middleware NODE_ENV next_response request = Some response \<longrightarrow>
      headers_get (response_headers response) ''X-Frame-Options'' = Some ''SAMEORIGIN'' \<and>
      headers_get (response_headers response) ''X-Content-Type-Options'' = Some ''nosniff'' \<and>
      (\<forall>name. map lower_ascii name \<noteq> ''x-frame-options'' \<and>
              map lower_ascii name \<noteq> ''x-content-type-options'' \<longrightarrow>
         headers_get (response_headers response) name =
           headers_get (response_headers next_response) name))"
proof -
  have body: "middleware NODE_ENV next_response request =
      (if NODE_ENV = Some ''development'' then next_response
       else next_response\<lparr>response_headers :=
         (response_headers next_response)(''x-frame-options'' \<mapsto> ''SAMEORIGIN'',
            ''x-content-type-options'' \<mapsto> ''nosniff'')\<rparr>)"
    unfolding middleware_def headers_set_def Let_def lower_ascii_names by simp
  have scope: "run_middleware NODE_ENV next_response request =
      (if config_matcher (nextUrl_pathname request)
       then Some (middleware NODE_ENV next_response request) else None)"
    by (simp add: run_middleware_def)
  have headers: "headers_get (response_headers response) ''X-Frame-Options'' = Some ''SAMEORIGIN'' \<and>
      headers_get (response_headers response) ''X-Content-Type-Options'' = Some ''nosniff'' \<and>
      (\<forall>name. map lower_ascii name \<noteq> ''x-frame-options'' \<and>
              map lower_ascii name \<noteq> ''x-content-type-options'' \<longrightarrow>
         headers_get (response_headers response) name =
           headers_get (response_headers next_response) name)"
    if "NODE_ENV \<noteq> Some ''development''"
      and "run_middleware NODE_ENV next_response request = Some response" for response
  proof -
    from that have "response = next_response\<lparr>response_headers :=
        (response_headers next_response)(''x-frame-options'' \<mapsto> ''SAMEORIGIN'',
           ''x-content-type-options'' \<mapsto> ''nosniff'')\<rparr>"
      by (simp add: scope body split: if_splits)
    then show ?thesis
      unfolding headers_get_def lower_ascii_names by simp
  qed
  show ?thesis
    unfolding scope body config_matcher_paths
    using headers [unfolded scope body config_matcher_paths] by blast
qed

text \<open>
  Claim C7, amended, at three concrete inputs: a request for \<^verbatim>\<open>/terminal-simple\<close> in
  development, the same request in production, and a request for \<^verbatim>\<open>/publicity\<close> in
  production, which the matcher refuses.
\<close>

theorem middleware_headers_witness:
  "run_middleware (Some ''development'') plain_response (request_for ''/terminal-simple'') =
     Some plain_response \<and>
   run_middleware (Some ''production'') plain_response (request_for ''/terminal-simple'') =
     Some (plain_response\<lparr>response_headers :=
       (response_headers plain_response)(''x-frame-options'' \<mapsto> ''SAMEORIGIN'',
          ''x-content-type-options'' \<mapsto> ''nosniff'')\<rparr>) \<and>
   headers_get (response_headers (plain_response\<lparr>response_headers :=
       (response_headers plain_response)(''x-frame-options'' \<mapsto> ''SAMEORIGIN'',
          ''x-content-type-options'' \<mapsto> ''nosniff'')\<rparr>)) ''X-Frame-Options'' = Some ''SAMEORIGIN'' \<and>
   run_middleware (Some ''production'') plain_response (request_for ''/publicity'') = None"
proof -
  let ?set = "plain_response\<lparr>response_headers :=
       (response_headers plain_response)(''x-frame-options'' \<mapsto> ''SAMEORIGIN'',
          ''x-content-type-options'' \<mapsto> ''nosniff'')\<rparr>"
  have inside: "\<exists>rest. nextUrl_pathname (request_for ''/terminal-simple'') = CHR ''/'' # rest \<and>
      list_all dot_matches rest \<and>
      \<not> prefix ''_next/static'' rest \<and> \<not> prefix ''_next/image'' rest \<and>
      \<not> (\<exists>c tail. dot_matches c \<and> rest = ''favicon'' @ c # ''ico'' @ tail) \<and>
      \<not> prefix ''public'' rest"
    by (simp add: request_for_def dot_matches_def)
  have outside: "\<not> (\<exists>rest. nextUrl_pathname (request_for ''/publicity'') = CHR ''/'' # rest \<and>
      list_all dot_matches rest \<and>
      \<not> prefix ''_next/static'' rest \<and> \<not> prefix ''_next/image'' rest \<and>
      \<not> (\<exists>c tail. dot_matches c \<and> rest = ''favicon'' @ c # ''ico'' @ tail) \<and>
      \<not> prefix ''public'' rest)"
    by (simp add: request_for_def)
  have p: "Some ''production'' \<noteq> Some ''development''" by simp
  from middleware_headers [of "Some ''development''" plain_response "request_for ''/terminal-simple''"]
    inside
  have d: "run_middleware (Some ''development'') plain_response (request_for ''/terminal-simple'') =
      Some plain_response"
    by simp
  from middleware_headers [of "Some ''production''" plain_response "request_for ''/terminal-simple''"]
    inside p
  have q: "run_middleware (Some ''production'') plain_response (request_for ''/terminal-simple'') =
      Some ?set"
    by simp
  from middleware_headers [of "Some ''production''" plain_response "request_for ''/terminal-simple''"]
    p q
  have g: "headers_get (response_headers ?set) ''X-Frame-Options'' = Some ''SAMEORIGIN''"
    by blast
  from middleware_headers [of "Some ''production''" plain_response "request_for ''/publicity''"]
    outside
  have n: "run_middleware (Some ''production'') plain_response (request_for ''/publicity'') = None"
    by simp
  from d q g n show ?thesis by blast
qed

section \<open>Theorems about the voice feedback shim\<close>

lemmas noop_defs = speak_def stopSpeak_def isTTSEnabled_def setEnabled_def setVolume_def
  setRate_def VoiceFeedback_speak_def safeSpeak_def stop_def announceAmount_def
  announcePaymentStart_def announcePaymentComplete_def announceError_def announceStep_def

text \<open>
  Claim C8. No operation of the voice feedback interface does anything: for every
  argument and every state, \<open>speak\<close> resolves, \<open>isTTSEnabled\<close> is \<open>False\<close>, the others
  return nothing, and each leaves the state as it found it.
\<close>

theorem voice_feedback_inert:
  "speak t s = (Resolved (), s) \<and> stopSpeak s = ((), s) \<and> isTTSEnabled s = (False, s) \<and>
   setEnabled this b s = ((), s) \<and> setVolume this v s = ((), s) \<and> setRate this x s = ((), s) \<and>
   VoiceFeedback_speak this t p s = ((), s) \<and> safeSpeak this t p s = ((), s) \<and>
   stop this s = ((), s) \<and> announceAmount this a s = ((), s) \<and>
   announcePaymentStart this s = ((), s) \<and> announcePaymentComplete this s = ((), s) \<and>
   announceError this e s = ((), s) \<and> announceStep this t s = ((), s)"
  by (simp add: noop_defs)

lemma run_Cons:
  "run (c # cs) s =
     (fst (exec c s) # fst (run cs (snd (exec c s))), snd (run cs (snd (exec c s))))"
  by (simp split: prod.splits)

lemma run_results:
  "fst (run (c # cs) s) = fst (exec c s) # fst (run cs (snd (exec c s)))"
  by (simp only: run_Cons fst_conv)

lemma run_state:
  "snd (run (c # cs) s) = snd (run cs (snd (exec c s)))"
  by (simp only: run_Cons snd_conv)

lemma exec_instance_Some:
  "VoiceFeedback_instance s = Some r \<Longrightarrow>
   snd (exec c s) = s \<and> (c = GetInstance \<longrightarrow> fst (exec c s) = Object r)"
  by (cases c) (simp_all add: void_def noop_defs getInstance_def)

lemma exec_other:
  "c \<noteq> GetInstance \<Longrightarrow> snd (exec c s) = s"
  by (cases c) (simp_all add: void_def noop_defs)

lemma exec_GetInstance:
  "\<exists>r. fst (exec GetInstance s) = Object r \<and>
       VoiceFeedback_instance (snd (exec GetInstance s)) = Some r"
  by (simp add: getInstance_def split: option.splits)

text \<open>Once the static field is set, every later call finds it and leaves the state alone.\<close>

lemma run_instance_Some:
  "VoiceFeedback_instance s = Some r \<Longrightarrow>
   snd (run cs s) = s \<and>
   (\<forall>k<length cs. cs ! k = GetInstance \<longrightarrow> fst (run cs s) ! k = Object r)"
proof (induction cs)
  case Nil
  then show ?case by simp
next
  case (Cons c cs)
  from Cons.prems have e: "snd (exec c s) = s" "c = GetInstance \<longrightarrow> fst (exec c s) = Object r"
    using exec_instance_Some by blast+
  from Cons have ih: "snd (run cs s) = s"
    "\<forall>k<length cs. cs ! k = GetInstance \<longrightarrow> fst (run cs s) ! k = Object r"
    by blast+
  have r: "fst (run (c # cs) s) = fst (exec c s) # fst (run cs s)"
    by (simp only: run_results e(1))
  show ?case
  proof (intro conjI allI impI)
    show "snd (run (c # cs) s) = s" by (simp only: run_state e(1) ih(1))
  next
    fix k assume k: "k < length (c # cs)" "(c # cs) ! k = GetInstance"
    show "fst (run (c # cs) s) ! k = Object r"
    proof (cases k)
      case 0
      with k(2) have "c = GetInstance" by simp
      with e(2) have "fst (exec c s) = Object r" by blast
      then show ?thesis unfolding r 0 by simp
    next
      case (Suc k')
      with k have "k' < length cs" "cs ! k' = GetInstance" by simp_all
      with ih(2) have "fst (run cs s) ! k' = Object r" by blast
      then show ?thesis unfolding r Suc by simp
    qed
  qed
qed

text \<open>Two calls of \<open>getInstance\<close> in one execution return the same object.\<close>

lemma getInstance_results_agree:
  "i < j \<Longrightarrow> j < length cs \<Longrightarrow> cs ! i = GetInstance \<Longrightarrow> cs ! j = GetInstance \<Longrightarrow>
   (\<exists>r. fst (run cs s) ! i = Object r \<and> fst (run cs s) ! j = Object r)"
proof (induction cs arbitrary: s i j)
  case Nil
  then show ?case by simp
next
  case (Cons c cs)
  obtain j' where j: "j = Suc j'" using Cons.prems(1) by (cases j) simp_all
  note run_eq = run_results [of c cs s]
  show ?case
  proof (cases i)
    case 0
    with Cons.prems have c: "c = GetInstance" by simp
    from exec_GetInstance [of s] c obtain r where r: "fst (exec c s) = Object r"
      "VoiceFeedback_instance (snd (exec c s)) = Some r" by blast
    from Cons.prems j have "j' < length cs" "cs ! j' = GetInstance" by simp_all
    with run_instance_Some [OF r(2), of cs]
    have t: "fst (run cs (snd (exec c s))) ! j' = Object r" by blast
    have "fst (run (c # cs) s) ! i = Object r" unfolding run_eq 0 using r(1) by simp
    moreover have "fst (run (c # cs) s) ! j = Object r" unfolding run_eq j using t by simp
    ultimately show ?thesis by blast
  next
    case (Suc i')
    with Cons.prems j
    have "i' < j'" "j' < length cs" "cs ! i' = GetInstance" "cs ! j' = GetInstance"
      by simp_all
    from Cons.IH [OF this, of "snd (exec c s)"] show ?thesis
      unfolding run_eq Suc j by simp
  qed
qed

text \<open>
  An execution constructs an object at most once: when the static field was undefined and
  \<open>getInstance\<close> is called.
\<close>

lemma run_constructs_once:
  "next_ref (snd (run cs s)) =
     (if VoiceFeedback_instance s = None \<and> GetInstance \<in> set cs then Suc (next_ref s)
      else next_ref s)"
proof (induction cs arbitrary: s)
  case Nil
  then show ?case by simp
next
  case (Cons c cs)
  show ?case
  proof (cases "VoiceFeedback_instance s")
    case (Some r)
    from run_instance_Some [OF this, of "c # cs"] have "snd (run (c # cs) s) = s" by blast
    with Some show ?thesis by simp
  next
    case None
    show ?thesis
    proof (cases "c = GetInstance")
      case True
      let ?s' = "s\<lparr>VoiceFeedback_instance := Some (next_ref s), next_ref := Suc (next_ref s)\<rparr>"
      have e: "snd (exec c s) = ?s'" using True None by (simp add: getInstance_def)
      have "VoiceFeedback_instance ?s' = Some (next_ref s)" by simp
      from run_instance_Some [OF this, of cs] have "snd (run cs ?s') = ?s'" by blast
      with e have "snd (run (c # cs) s) = ?s'" by (simp only: run_state)
      with None True show ?thesis by simp
    next
      case False
      then have e: "snd (exec c s) = s" by (rule exec_other)
      then have "snd (run (c # cs) s) = snd (run cs s)" by (simp only: run_state)
      with Cons.IH [of s] None False show ?thesis by simp
    qed
  qed
qed

lemma getInstance_twice:
  "getInstance s = (r1, s1) \<Longrightarrow> getInstance s1 = (r2, s2) \<Longrightarrow> r1 = r2 \<and> s2 = s1"
  by (auto simp add: getInstance_def split: option.splits)

text \<open>
  Claim C10. In an execution, any list of calls into the module run from any state, two
  calls of \<open>getInstance\<close> return the very same object. The execution constructs that
  object once if the static field was undefined at its start, at the first call of
  \<open>getInstance\<close>, and constructs nothing otherwise.
\<close>

theorem getInstance_same_instance:
  "i < j \<Longrightarrow> j < length cs \<Longrightarrow> cs ! i = GetInstance \<Longrightarrow> cs ! j = GetInstance \<Longrightarrow>
   (\<exists>r. fst (run cs s) ! i = Object r \<and> fst (run cs s) ! j = Object r) \<and>
   next_ref (snd (run cs s)) =
     (if VoiceFeedback_instance s = None then Suc (next_ref s) else next_ref s)"
proof -
  assume h: "i < j" "j < length cs" "cs ! i = GetInstance" "cs ! j = GetInstance"
  then have "GetInstance \<in> set cs" by (metis nth_mem)
  then have "next_ref (snd (run cs s)) =
      (if VoiceFeedback_instance s = None then Suc (next_ref s) else next_ref s)"
    by (simp add: run_constructs_once)
  with getInstance_results_agree [OF h, of s] show ?thesis by blast
qed

text \<open>
  Claim C10, at a concrete input: in a freshly loaded module, the first and the third of
  three calls are \<open>getInstance\<close>.
\<close>

theorem getInstance_same_instance_witness:
  "(0::nat) < 2 \<and> 2 < length [GetInstance, SetVolume 0 5, GetInstance] \<and>
   [GetInstance, SetVolume 0 5, GetInstance] ! 0 = GetInstance \<and>
   [GetInstance, SetVolume 0 5, GetInstance] ! 2 = GetInstance \<and>
   (\<exists>r. fst (run [GetInstance, SetVolume 0 5, GetInstance] tts_initial) ! 0 = Object r \<and>
        fst (run [GetInstance, SetVolume 0 5, GetInstance] tts_initial) ! 2 = Object r)"
proof -
  let ?cs = "[GetInstance, SetVolume 0 5, GetInstance]"
  have h1: "(0::nat) < 2" by simp
  have h2: "2 < length ?cs" by simp
  have h3: "?cs ! 0 = GetInstance" by simp
  have h4: "?cs ! 2 = GetInstance" by simp
  from getInstance_same_instance [OF h1 h2 h3 h4, of tts_initial] h1 h2 h3 h4
  show ?thesis by blast
qed

end
